theory Spec2Isabelle
  imports Main
begin

section \<open>Strings and numbers of the host language\<close>

text \<open>
  Strings are lists of 8-bit code units (the Latin-1 range of the code units of a
  JavaScript string). \<open>String.prototype.trim\<close> removes the white space and line
  terminator code units from both ends; in this range they are TAB, LF, VT, FF, CR,
  SPACE and NBSP.
\<close>

definition is_ws :: "char \<Rightarrow> bool" where
  "is_ws c = (of_char c \<in> {9, 10, 11, 12, 13, 32, 160 :: nat})"

definition trim :: "string \<Rightarrow> string" where
  "trim s = rev (dropWhile is_ws (rev (dropWhile is_ws s)))"

text \<open>
  A template literal renders an integral number in decimal (for magnitudes below
  \<open>10^21\<close>, which covers millisecond clock readings, array indices and HTTP status
  codes).
\<close>

definition digit_char :: "nat \<Rightarrow> char" where
  "digit_char d = ''0123456789'' ! d"

fun show_nat :: "nat \<Rightarrow> string" where
  "show_nat n =
     (if n < 10 then [digit_char n] else show_nat (n div 10) @ [digit_char (n mod 10)])"

declare show_nat.simps [simp del]

definition show_int :: "int \<Rightarrow> string" where
  "show_int i = (if i < 0 then CHR ''-'' # show_nat (nat (- i)) else show_nat (nat i))"

section \<open>Data model\<close>

text \<open>
  A message object. The field \<open>isLoading\<close> is read only for its truthiness, so an
  absent (undefined) flag is \<open>False\<close>.
\<close>

record message =
  msg_id :: string
  author :: string
  role :: string
  msg_content :: string
  ts :: int
  msg_isLoading :: bool

text \<open>The component state of \<open>App\<close>: one field per \<open>useState\<close> cell.\<close>

record state =
  history :: "message list"
  content :: string
  selectedTags :: "string list"
  isLoading :: bool
  error :: "string option"

text \<open>
  A call of a state setter. \<open>setHistory\<close> and \<open>setSelectedTags\<close> take an updater
  that is applied to the value current when the update is processed; a setter called
  with a plain value is the constant updater. A handler emits its setter calls in
  order; each call is one state update.
\<close>

datatype update =
    SetHistory "message list \<Rightarrow> message list"
  | SetContent string
  | SetSelectedTags "string list \<Rightarrow> string list"
  | SetIsLoading bool
  | SetError "string option"

fun apply_update :: "update \<Rightarrow> state \<Rightarrow> state" where
  "apply_update (SetHistory f) st = st\<lparr>history := f (history st)\<rparr>"
| "apply_update (SetContent v) st = st\<lparr>content := v\<rparr>"
| "apply_update (SetSelectedTags f) st = st\<lparr>selectedTags := f (selectedTags st)\<rparr>"
| "apply_update (SetIsLoading b) st = st\<lparr>isLoading := b\<rparr>"
| "apply_update (SetError e) st = st\<lparr>error := e\<rparr>"

definition apply_updates :: "update list \<Rightarrow> state \<Rightarrow> state" where
  "apply_updates us st = foldl (\<lambda>s u. apply_update u s) st us"


section \<open>Tag selection\<close>

text \<open>The updater that \<open>toggleTag\<close> passes to \<open>setSelectedTags\<close>.\<close>

definition toggleTag_updater :: "string \<Rightarrow> string list \<Rightarrow> string list" where
  "toggleTag_updater tag prev =
     (if tag \<in> set prev then filter (\<lambda>t. t \<noteq> tag) prev else prev @ [tag])"

definition toggleTag :: "string \<Rightarrow> update list" where
  "toggleTag tag = [SetSelectedTags (toggleTag_updater tag)]"

definition clearSelectedTags :: "update list" where
  "clearSelectedTags = [SetSelectedTags (\<lambda>prev. [])]"

section \<open>API client\<close>

text \<open>
  A rejection reason. \<open>Error\<close> is what the client itself throws; the others come
  from the platform: the abort of a request (a DOMException named AbortError), a
  transport failure of \<open>fetch\<close> (TypeError), a body that does not decode
  (SyntaxError). Each carries its message text.
\<close>

datatype js_error =
    Error string
  | AbortError string
  | TypeError string
  | SyntaxError string

fun err_message :: "js_error \<Rightarrow> string" where
  "err_message (Error m) = m"
| "err_message (AbortError m) = m"
| "err_message (TypeError m) = m"
| "err_message (SyntaxError m) = m"

text \<open>The state a promise ends in; \<open>Pending\<close> is a promise that never settles.\<close>

datatype 'a promise = Fulfilled 'a | Rejected js_error | Pending

text \<open>
  What the client reads of a response: the status, the result of \<open>text()\<close> (any
  rejection of the read, an abort during it included, is \<open>Inl\<close>) and the result of
  \<open>json()\<close>, which is read with no timer armed and so may never settle.
\<close>

record 'a response =
  status :: nat
  text_result :: "js_error + string"
  json_result :: "'a promise"

text \<open>\<open>Response.ok\<close>: the status is in the range 200 to 299.\<close>

definition ok :: "('a, 'b) response_scheme \<Rightarrow> bool" where
  "ok r = (200 \<le> status r \<and> status r \<le> 299)"

text \<open>
  The behaviour of the network and the server for one request: the time (in ms after
  the call) at which \<open>fetch\<close> would settle if nothing aborts it (\<open>None\<close>: never),
  what it settles with, and the message of the platform's abort error.
\<close>

record 'a exchange =
  settles_at :: "nat option"
  settles_with :: "js_error + 'a response"
  abort_reason :: string

text \<open>
  \<open>fetch\<close> with an optional abort signal, given as the time at which the signal
  aborts. A request that has not settled when its signal aborts rejects with the
  abort error; a request that settles at the very instant of the abort counts as
  settled.
\<close>

definition fetch_js :: "'a exchange \<Rightarrow> nat option \<Rightarrow> 'a response promise" where
  "fetch_js ex signal =
     (let settled = (case settles_with ex of Inl e \<Rightarrow> Rejected e | Inr r \<Rightarrow> Fulfilled r);
          aborted = Rejected (AbortError (abort_reason ex))
      in case (settles_at ex, signal) of
           (None, None) \<Rightarrow> Pending
         | (None, Some T) \<Rightarrow> aborted
         | (Some t, None) \<Rightarrow> settled
         | (Some t, Some T) \<Rightarrow> if t \<le> T then settled else aborted)"

text \<open>The body of \<open>POST /api/send\<close> and the decoded reply.\<close>

record request =
  req_content :: string
  req_tags :: "string list"

record send_response =
  userMessageId :: string
  replies :: "message list"

text \<open>
  \<open>sendMessage(content, tags, timeoutMs = 60000)\<close>. The timer aborts the
  controller's signal at \<open>timeoutMs\<close>; it is cleared in the \<open>finally\<close> block, which
  runs as soon as \<open>response.json()\<close> has been returned (not awaited). The model
  is of timeouts below \<open>2^31\<close> ms, the range in which \<open>setTimeout\<close> takes the
  delay as it is given.
\<close>

definition sendMessage ::
  "string \<Rightarrow> string list \<Rightarrow> nat option \<Rightarrow> (request \<Rightarrow> send_response exchange)
     \<Rightarrow> send_response promise" where
  "sendMessage cont tags timeoutMs net =
     (let timeout = (case timeoutMs of None \<Rightarrow> 60000 | Some t \<Rightarrow> t) in
      case fetch_js (net \<lparr>req_content = cont, req_tags = tags\<rparr>) (Some timeout) of
        Pending \<Rightarrow> Pending
      | Rejected e \<Rightarrow> Rejected e
      | Fulfilled response \<Rightarrow>
          if \<not> ok response then
            (let text = (case text_result response of Inl e \<Rightarrow> [] | Inr s \<Rightarrow> s)
             in Rejected (Error (''POST /send failed: '' @ show_nat (status response)
                                   @ '' '' @ text)))
          else json_result response)"

text \<open>\<open>resetChat()\<close>: no abort signal, no timer.\<close>

definition resetChat :: "'a exchange \<Rightarrow> 'a promise" where
  "resetChat ex =
     (case fetch_js ex None of
        Pending \<Rightarrow> Pending
      | Rejected e \<Rightarrow> Rejected e
      | Fulfilled response \<Rightarrow>
          if \<not> ok response then
            Rejected (Error (''POST /reset failed: '' @ show_nat (status response)))
          else json_result response)"

section \<open>Conversation view: sending\<close>

text \<open>
  The handler reads the clock several times. \<open>now k\<close> is the value of the \<open>k\<close>-th
  call of \<open>Date.now()\<close> in one run of \<open>handleSend\<close>: call 0 makes the temporary id,
  call 1 the user message's timestamp, calls \<open>2 + 2 * index\<close> and \<open>3 + 2 * index\<close>
  the id and the timestamp of the placeholder at \<open>index\<close>.
\<close>

definition tempUserMessageId :: "(nat \<Rightarrow> int) \<Rightarrow> string" where
  "tempUserMessageId now = ''temp_'' @ show_int (now 0)"

definition userMessage :: "(nat \<Rightarrow> int) \<Rightarrow> string \<Rightarrow> message" where
  "userMessage now messageContent =
     \<lparr>msg_id = tempUserMessageId now, author = ''user'', role = ''user'',
      msg_content = messageContent, ts = now 1, msg_isLoading = False\<rparr>"

definition loadingMessage :: "(nat \<Rightarrow> int) \<Rightarrow> nat \<Rightarrow> string \<Rightarrow> message" where
  "loadingMessage now index tag =
     \<lparr>msg_id = ''loading_'' @ show_int (now (2 + 2 * index)) @ ''_'' @ show_nat index,
      author = drop 1 tag, role = ''assistant'', msg_content = ''Thinking...'',
      ts = now (3 + 2 * index) + int index + 1, msg_isLoading = True\<rparr>"

definition loadingMessages :: "(nat \<Rightarrow> int) \<Rightarrow> string list \<Rightarrow> message list" where
  "loadingMessages now tagsToSend =
     map (\<lambda>(index, tag). loadingMessage now index tag) (enumerate 0 tagsToSend)"

text \<open>The guard at the head of \<open>handleSend\<close> (the empty string is falsy).\<close>

definition send_blocked :: "state \<Rightarrow> bool" where
  "send_blocked st = (trim (content st) = [] \<or> selectedTags st = [] \<or> isLoading st)"

text \<open>
  The part of \<open>handleSend\<close> that runs before the \<open>await\<close>: the setter calls it
  makes, and the call of \<open>sendMessage\<close> it issues (the temporary id it will look for
  afterwards, and the arguments), if any.
\<close>

definition handleSend_begin ::
  "(nat \<Rightarrow> int) \<Rightarrow> state \<Rightarrow> update list \<times> (string \<times> request) option" where
  "handleSend_begin now st =
     (if send_blocked st then ([], None)
      else
        (let messageContent = trim (content st);
             tagsToSend = selectedTags st
         in ([SetHistory (\<lambda>prev. prev @ userMessage now messageContent
                                        # loadingMessages now tagsToSend),
              SetContent [],
              SetIsLoading True,
              SetError None],
             Some (tempUserMessageId now,
                   \<lparr>req_content = messageContent, req_tags = tagsToSend\<rparr>))))"

text \<open>
  The updaters of the success and of the failure branch; \<open>replaceId\<close> is the
  function mapped over the entries that are left once the placeholders are removed.
\<close>

definition replaceId :: "string \<Rightarrow> send_response \<Rightarrow> message \<Rightarrow> message" where
  "replaceId tempId response msg =
     (if msg_id msg = tempId then msg\<lparr>msg_id := userMessageId response\<rparr> else msg)"

definition reconcile :: "string \<Rightarrow> send_response \<Rightarrow> message list \<Rightarrow> message list" where
  "reconcile tempId response prev =
     (let withoutLoading = filter (\<lambda>msg. \<not> msg_isLoading msg) prev;
          updatedHistory = map (replaceId tempId response) withoutLoading
      in updatedHistory @ replies response)"

definition dropLoading :: "message list \<Rightarrow> message list" where
  "dropLoading prev = filter (\<lambda>msg. \<not> msg_isLoading msg) prev"

text \<open>
  The part of \<open>handleSend\<close> that runs once the awaited call has settled: the \<open>try\<close>
  continuation or the \<open>catch\<close> block, then the \<open>finally\<close> block.
\<close>

definition handleSend_settle :: "string \<Rightarrow> js_error + send_response \<Rightarrow> update list" where
  "handleSend_settle tempId outcome =
     (case outcome of
        Inr response \<Rightarrow> [SetHistory (reconcile tempId response)]
      | Inl err \<Rightarrow>
          [SetError (Some (''Failed to send message: '' @ err_message err)),
           SetHistory dropLoading])
     @ [SetIsLoading False]"

text \<open>
  One run of \<open>handleSend\<close> with no other event in between: the state when the
  handler has completed, or \<open>None\<close> when the awaited call never settles (the state
  then stays as the first part left it).
\<close>

definition handleSend ::
  "(nat \<Rightarrow> int) \<Rightarrow> (request \<Rightarrow> send_response exchange) \<Rightarrow> state \<Rightarrow> state option" where
  "handleSend now net st =
     (case handleSend_begin now st of
        (us, None) \<Rightarrow> Some (apply_updates us st)
      | (us, Some (tempId, req)) \<Rightarrow>
          (case sendMessage (req_content req) (req_tags req) None net of
             Pending \<Rightarrow> None
           | Fulfilled response \<Rightarrow>
               Some (apply_updates (handleSend_settle tempId (Inr response))
                       (apply_updates us st))
           | Rejected err \<Rightarrow>
               Some (apply_updates (handleSend_settle tempId (Inl err))
                       (apply_updates us st))))"

section \<open>Conversation view: reset\<close>

definition handleReset_settle :: "js_error + 'a \<Rightarrow> update list" where
  "handleReset_settle outcome =
     (case outcome of
        Inr body \<Rightarrow> [SetHistory (\<lambda>prev. []), SetError None]
      | Inl err \<Rightarrow> [SetError (Some (''Failed to reset chat: '' @ err_message err))])"

definition handleReset :: "'a exchange \<Rightarrow> state \<Rightarrow> state option" where
  "handleReset ex st =
     (case resetChat ex of
        Pending \<Rightarrow> None
      | Fulfilled body \<Rightarrow> Some (apply_updates (handleReset_settle (Inr body)) st)
      | Rejected err \<Rightarrow> Some (apply_updates (handleReset_settle (Inl err :: js_error + 'a)) st))"

section \<open>Example inputs\<close>

text \<open>
  Concrete values at which the theorems below are instantiated: clocks (one that
  stands still, one that ticks at every reading, one that is set back between two
  readings), an earlier confirmed message, a reply with and without a loading flag,
  composer states with one and with two selected tags, and exchanges that answer in
  time, answer late, answer with a failure status, answer with a success status and
  a body that never completes, or answer a reset with a body that is or is not JSON.
\<close>

definition ex_now :: "nat \<Rightarrow> int" where
  "ex_now k = 1730000000000"


definition ex_old :: message where
  "ex_old = \<lparr>msg_id = ''m0'', author = ''gpt'', role = ''assistant'',
             msg_content = ''hello'', ts = 1729999999000, msg_isLoading = False\<rparr>"

definition ex_reply :: message where
  "ex_reply = \<lparr>msg_id = ''m2'', author = ''gpt'', role = ''assistant'',
               msg_content = ''hi there'', ts = 1730000000900, msg_isLoading = False\<rparr>"

definition ex_response :: send_response where
  "ex_response = \<lparr>userMessageId = ''m1'', replies = [ex_reply]\<rparr>"

definition ex_state :: state where
  "ex_state = \<lparr>history = [ex_old], content = ''  hi  '', selectedTags = [''@gpt''],
               isLoading = False, error = None\<rparr>"


definition ex_net :: "request \<Rightarrow> send_response exchange" where
  "ex_net req = \<lparr>settles_at = Some 1200,
                 settles_with = Inr \<lparr>status = 200, text_result = Inr [],
                                     json_result = Fulfilled ex_response\<rparr>,
                 abort_reason = ''The operation was aborted.''\<rparr>"

definition ex_net_slow :: "request \<Rightarrow> send_response exchange" where
  "ex_net_slow req = (ex_net req)\<lparr>settles_at := Some 75000\<rparr>"

definition ex_net_500 :: "request \<Rightarrow> send_response exchange" where
  "ex_net_500 req = \<lparr>settles_at = Some 300,
                     settles_with = Inr \<lparr>status = 500, text_result = Inr ''boom'',
                                         json_result = Rejected (SyntaxError ''Unexpected token'')\<rparr>,
                     abort_reason = ''The operation was aborted.''\<rparr>"

definition ex_net_503 :: "request \<Rightarrow> send_response exchange" where
  "ex_net_503 req = \<lparr>settles_at = Some 300,
                     settles_with = Inr \<lparr>status = 503,
                                         text_result = Inl (TypeError ''network error''),
                                         json_result = Rejected (TypeError ''network error'')\<rparr>,
                     abort_reason = ''The operation was aborted.''\<rparr>"

definition ex_net_stall :: "request \<Rightarrow> send_response exchange" where
  "ex_net_stall req = \<lparr>settles_at = Some 40,
                       settles_with = Inr \<lparr>status = 200, text_result = Inr [],
                                           json_result = Pending\<rparr>,
                       abort_reason = ''The operation was aborted.''\<rparr>"

definition ex_reply_flagged :: message where
  "ex_reply_flagged = ex_reply\<lparr>msg_isLoading := True\<rparr>"

definition ex_net_flagged :: "request \<Rightarrow> send_response exchange" where
  "ex_net_flagged req =
     \<lparr>settles_at = Some 1200,
      settles_with = Inr \<lparr>status = 200, text_result = Inr [],
                          json_result = Fulfilled \<lparr>userMessageId = ''m1'',
                                                    replies = [ex_reply_flagged]\<rparr>\<rparr>,
      abort_reason = ''The operation was aborted.''\<rparr>"


definition ex_reset_ok :: "unit exchange" where
  "ex_reset_ok = \<lparr>settles_at = Some 80,
                  settles_with = Inr \<lparr>status = 200, text_result = Inr ''{}'',
                                      json_result = Fulfilled ()\<rparr>,
                  abort_reason = ''The operation was aborted.''\<rparr>"

definition ex_reset_undecodable :: "unit exchange" where
  "ex_reset_undecodable =
     \<lparr>settles_at = Some 80,
      settles_with = Inr \<lparr>status = 204, text_result = Inr [],
                          json_result = Rejected (SyntaxError ''Unexpected end of JSON input'')\<rparr>,
      abort_reason = ''The operation was aborted.''\<rparr>"

section \<open>Decimal rendering\<close>

text \<open>
  The decimal rendering of a natural number uses digits only and determines the
  number; no rendered number contains an underscore.
\<close>

lemma digit_char_in: "d < 10 \<Longrightarrow> digit_char d \<in> set ''0123456789''"
  unfolding digit_char_def by (rule nth_mem) simp

lemma digit_char_inj: "d < 10 \<Longrightarrow> e < 10 \<Longrightarrow> digit_char d = digit_char e \<Longrightarrow> d = e"
proof -
  assume d: "d < 10" and e: "e < 10" and eq: "digit_char d = digit_char e"
  have dist: "distinct ''0123456789''" by simp
  have "d < length ''0123456789''" "e < length ''0123456789''" using d e by simp_all
  with dist eq show "d = e"
    unfolding digit_char_def by (simp only: nth_eq_iff_index_eq)
qed

lemma show_nat_chars: "set (show_nat n) \<subseteq> set ''0123456789''"
proof (induction n rule: show_nat.induct)
  case (1 n)
  show ?case
  proof (cases "n < 10")
    case True
    then show ?thesis using digit_char_in [of n] by (subst show_nat.simps) simp
  next
    case False
    have "n mod 10 < 10" by simp
    then have "digit_char (n mod 10) \<in> set ''0123456789''" by (rule digit_char_in)
    with False 1 show ?thesis by (subst show_nat.simps) simp
  qed
qed

lemma show_nat_nonempty: "show_nat n \<noteq> []"
  by (subst show_nat.simps) simp

lemma show_nat_inj: "show_nat n = show_nat m \<Longrightarrow> n = m"
proof (induction n arbitrary: m rule: show_nat.induct)
  case (1 n)
  show ?case
  proof (cases "n < 10")
    case n: True
    show ?thesis
    proof (cases "m < 10")
      case True
      with n 1(2) have "digit_char n = digit_char m"
        by (simp add: show_nat.simps [of n] show_nat.simps [of m])
      with n True show ?thesis using digit_char_inj by blast
    next
      case False
      with n 1(2) show ?thesis
        using show_nat_nonempty [of "m div 10"]
        by (simp add: show_nat.simps [of n] show_nat.simps [of m])
    qed
  next
    case n: False
    show ?thesis
    proof (cases "m < 10")
      case True
      with n 1(2) show ?thesis
        using show_nat_nonempty [of "n div 10"]
        by (simp add: show_nat.simps [of n] show_nat.simps [of m])
    next
      case False
      with n 1(2) have eq: "show_nat (n div 10) = show_nat (m div 10)"
        and d: "digit_char (n mod 10) = digit_char (m mod 10)"
        by (simp_all add: show_nat.simps [of n] show_nat.simps [of m])
      from 1(1) [OF n eq] have "n div 10 = m div 10" .
      moreover from d have "n mod 10 = m mod 10"
        by (rule digit_char_inj [rotated 2]) simp_all
      ultimately show ?thesis by (metis div_mult_mod_eq)
    qed
  qed
qed

lemma underscore_show_nat: "CHR ''_'' \<notin> set (show_nat n)"
proof
  assume "CHR ''_'' \<in> set (show_nat n)"
  with show_nat_chars [of n] have "CHR ''_'' \<in> set ''0123456789''" by (rule subsetD)
  then show False by simp
qed

lemma underscore_show_int: "CHR ''_'' \<notin> set (show_int i)"
  by (cases "i < 0") (simp_all add: show_int_def underscore_show_nat)

lemma split_at_first:
  "c \<notin> set a \<Longrightarrow> c \<notin> set b \<Longrightarrow> a @ c # u = b @ c # v \<Longrightarrow> a = b \<and> u = v"
proof (induction a arbitrary: b)
  case Nil
  then show ?case by (cases b) auto
next
  case (Cons x a)
  then show ?case by (cases b) auto
qed

lemma loading_id_inj:
  assumes "pre @ show_int a @ ''_'' @ show_nat i = pre @ show_int b @ ''_'' @ show_nat j"
  shows "i = j"
proof -
  from assms have "show_int a @ CHR ''_'' # show_nat i = show_int b @ CHR ''_'' # show_nat j"
    by simp
  then have "show_nat i = show_nat j"
    using underscore_show_int [of a] underscore_show_int [of b]
    by (blast dest: split_at_first)
  then show ?thesis by (rule show_nat_inj)
qed

section \<open>Trimming\<close>

text \<open>
  \<open>trim\<close> cuts a run of white space off each end: what is left starts and ends
  with a character that is not white space.
\<close>

lemma trim_rest:
  "dropWhile is_ws s = trim s @ rev (takeWhile is_ws (rev (dropWhile is_ws s)))"
proof -
  define d where "d = dropWhile is_ws s"
  have "d = rev (takeWhile is_ws (rev d) @ dropWhile is_ws (rev d))"
    by simp
  also have "\<dots> = rev (dropWhile is_ws (rev d)) @ rev (takeWhile is_ws (rev d))"
    by (rule rev_append)
  finally show ?thesis
    by (simp only: trim_def d_def)
qed

lemma trim_decompose:
  "\<exists>pre post. s = pre @ trim s @ post \<and> list_all is_ws pre \<and> list_all is_ws post"
proof -
  have pre: "list_all is_ws (takeWhile is_ws s)"
    by (simp add: list_all_iff) (meson set_takeWhileD)
  have post: "list_all is_ws (rev (takeWhile is_ws (rev (dropWhile is_ws s))))"
    by (simp add: list_all_iff) (meson set_takeWhileD)
  have "s = takeWhile is_ws s @ dropWhile is_ws s"
    by simp
  also have "\<dots> = takeWhile is_ws s @ trim s @ rev (takeWhile is_ws (rev (dropWhile is_ws s)))"
    using trim_rest [of s] by simp
  finally show ?thesis using pre post by blast
qed

lemma trim_last: "trim s \<noteq> [] \<Longrightarrow> \<not> is_ws (last (trim s))"
  by (simp add: trim_def last_rev hd_dropWhile)

lemma trim_hd: "trim s \<noteq> [] \<Longrightarrow> \<not> is_ws (hd (trim s))"
proof -
  assume ne: "trim s \<noteq> []"
  with trim_rest [of s] have "hd (dropWhile is_ws s) = hd (trim s)"
    by (metis hd_append2)
  moreover from ne trim_rest [of s] have "dropWhile is_ws s \<noteq> []"
    by (metis append_is_Nil_conv)
  ultimately show ?thesis
    using hd_dropWhile [of is_ws s] by simp
qed

section \<open>The entries synthesized by one send\<close>

lemma length_loadingMessages: "length (loadingMessages now tags) = length tags"
  by (simp add: loadingMessages_def)

lemma nth_loadingMessages:
  "i < length tags \<Longrightarrow> loadingMessages now tags ! i = loadingMessage now i (tags ! i)"
  by (simp add: loadingMessages_def nth_enumerate_eq)

lemma loadingMessages_all_loading: "m \<in> set (loadingMessages now tags) \<Longrightarrow> msg_isLoading m"
  by (auto simp: loadingMessages_def loadingMessage_def)

lemma filter_loadingMessages: "filter (\<lambda>msg. \<not> msg_isLoading msg) (loadingMessages now tags) = []"
  by (simp add: filter_empty_conv loadingMessages_all_loading)

lemma authors_loadingMessages: "map author (loadingMessages now tags) = map (drop 1) tags"
  by (rule nth_equalityI)
    (simp_all add: length_loadingMessages nth_loadingMessages loadingMessage_def)

lemma distinct_loading_ids: "distinct (map msg_id (loadingMessages now tags))"
proof -
  have "i = j" if "i < length tags" "j < length tags"
    "msg_id (loadingMessages now tags ! i) = msg_id (loadingMessages now tags ! j)" for i j
  proof -
    from that have "''loading_'' @ show_int (now (2 + 2 * i)) @ ''_'' @ show_nat i
        = ''loading_'' @ show_int (now (2 + 2 * j)) @ ''_'' @ show_nat j"
      by (simp add: nth_loadingMessages loadingMessage_def)
    then show ?thesis by (rule loading_id_inj)
  qed
  then show ?thesis
    by (simp add: distinct_conv_nth length_loadingMessages) blast
qed

lemma temp_id_not_loading_id: "tempUserMessageId now \<notin> msg_id ` set (loadingMessages now tags)"
  by (auto simp: tempUserMessageId_def loadingMessages_def loadingMessage_def)




section \<open>The API client's outcomes\<close>

lemma fetch_js_aborted:
  "settles_at ex = None \<or> (\<exists>t. settles_at ex = Some t \<and> T < t) \<Longrightarrow>
   fetch_js ex (Some T) = Rejected (AbortError (abort_reason ex))"
  by (auto simp: fetch_js_def)

lemma fetch_js_in_time:
  "settles_at ex = Some t \<Longrightarrow> t \<le> T \<Longrightarrow>
   fetch_js ex (Some T) = (case settles_with ex of Inl e \<Rightarrow> Rejected e | Inr r \<Rightarrow> Fulfilled r)"
  by (simp add: fetch_js_def)

lemma fetch_js_no_signal:
  "fetch_js ex None =
     (case settles_at ex of
        None \<Rightarrow> Pending
      | Some t \<Rightarrow> (case settles_with ex of Inl e \<Rightarrow> Rejected e | Inr r \<Rightarrow> Fulfilled r))"
  by (simp add: fetch_js_def split: option.splits)

lemma sendMessage_default: "sendMessage cont tags None net = sendMessage cont tags (Some 60000) net"
  by (simp add: sendMessage_def)

lemma sendMessage_aborted:
  assumes "settles_at (net \<lparr>req_content = cont, req_tags = tags\<rparr>) = None
         \<or> (\<exists>t. settles_at (net \<lparr>req_content = cont, req_tags = tags\<rparr>) = Some t \<and> T < t)"
  shows "sendMessage cont tags (Some T) net
           = Rejected (AbortError (abort_reason (net \<lparr>req_content = cont, req_tags = tags\<rparr>)))"
  using fetch_js_aborted [OF assms] by (simp add: sendMessage_def)

lemma sendMessage_success:
  assumes "settles_at (net \<lparr>req_content = cont, req_tags = tags\<rparr>) = Some t" and "t \<le> T"
    and "settles_with (net \<lparr>req_content = cont, req_tags = tags\<rparr>) = Inr r" and "ok r"
  shows "sendMessage cont tags (Some T) net = json_result r"
  using fetch_js_in_time [OF assms(1,2)] assms(3,4) by (simp add: sendMessage_def)

lemma sendMessage_transport_failure:
  assumes "settles_at (net \<lparr>req_content = cont, req_tags = tags\<rparr>) = Some t" and "t \<le> T"
    and "settles_with (net \<lparr>req_content = cont, req_tags = tags\<rparr>) = Inl e"
  shows "sendMessage cont tags (Some T) net = Rejected e"
  using fetch_js_in_time [OF assms(1,2)] assms(3) by (simp add: sendMessage_def)

lemma sendMessage_bad_status:
  assumes "settles_at (net \<lparr>req_content = cont, req_tags = tags\<rparr>) = Some t" and "t \<le> T"
    and "settles_with (net \<lparr>req_content = cont, req_tags = tags\<rparr>) = Inr r" and "\<not> ok r"
  shows "sendMessage cont tags (Some T) net
           = Rejected (Error (''POST /send failed: '' @ show_nat (status r) @ '' ''
                                @ (case text_result r of Inl e \<Rightarrow> [] | Inr body \<Rightarrow> body)))"
  using fetch_js_in_time [OF assms(1,2)] assms(3,4) by (simp add: sendMessage_def)

lemma resetChat_fulfilled_iff:
  "resetChat ex = Fulfilled body \<longleftrightarrow>
     (\<exists>t r. settles_at ex = Some t \<and> settles_with ex = Inr r \<and> ok r
            \<and> json_result r = Fulfilled body)"
  by (auto simp: resetChat_def fetch_js_no_signal split: option.splits sum.splits)

section \<open>Reconciliation\<close>

lemma replaceId_loadingMessages:
  "map (replaceId (tempUserMessageId now) response) (loadingMessages now tags)
     = loadingMessages now tags"
proof (rule map_idI)
  fix m assume "m \<in> set (loadingMessages now tags)"
  then have "msg_id m \<noteq> tempUserMessageId now"
    using temp_id_not_loading_id [of now tags] by (metis imageI)
  then show "replaceId (tempUserMessageId now) response m = m"
    by (simp add: replaceId_def)
qed

lemma replaceId_other:
  "\<forall>m \<in> set xs. msg_id m \<noteq> tempId \<Longrightarrow> map (replaceId tempId response) xs = xs"
  by (rule map_idI) (simp add: replaceId_def)

lemma replaceId_userMessage:
  "replaceId (tempUserMessageId now) response (userMessage now c)
     = (userMessage now c)\<lparr>msg_id := userMessageId response\<rparr>"
  by (simp add: replaceId_def userMessage_def)

lemma replaceId_isLoading: "msg_isLoading (replaceId tempId response m) = msg_isLoading m"
  by (simp add: replaceId_def)

lemma dropLoading_optimistic:
  "dropLoading (prev @ userMessage now c # loadingMessages now tags)
     = dropLoading prev @ [userMessage now c]"
  using filter_loadingMessages [of now tags]
  by (simp add: dropLoading_def userMessage_def)

lemma dropLoading_none_loading: "list_all (\<lambda>m. \<not> msg_isLoading m) (dropLoading prev)"
  by (simp add: dropLoading_def list_all_iff)

lemma reconcile_dropLoading:
  "reconcile tempId response prev
     = map (replaceId tempId response) (dropLoading prev) @ replies response"
  by (simp add: reconcile_def dropLoading_def)

lemma reconcile_optimistic:
  "reconcile (tempUserMessageId now) response
     (prev @ userMessage now c # loadingMessages now tags)
   = map (replaceId (tempUserMessageId now) response) (dropLoading prev)
       @ [(userMessage now c)\<lparr>msg_id := userMessageId response\<rparr>] @ replies response"
  by (simp add: reconcile_dropLoading dropLoading_optimistic replaceId_userMessage)

lemma filter_loading_reconcile:
  "filter msg_isLoading (reconcile tempId response prev) = filter msg_isLoading (replies response)"
proof -
  have "filter msg_isLoading (map (replaceId tempId response) (dropLoading prev)) = []"
    by (simp add: filter_empty_conv replaceId_isLoading dropLoading_def)
  then show ?thesis by (simp add: reconcile_dropLoading)
qed

lemma reconcile_none_loading:
  assumes "list_all (\<lambda>m. \<not> msg_isLoading m) (replies response)"
  shows "list_all (\<lambda>m. \<not> msg_isLoading m) (reconcile tempId response prev)"
proof -
  from assms have "filter msg_isLoading (replies response) = []"
    by (simp add: filter_empty_conv list_all_iff)
  then have "filter msg_isLoading (reconcile tempId response prev) = []"
    by (simp only: filter_loading_reconcile)
  then show ?thesis by (simp add: filter_empty_conv list_all_iff)
qed

section \<open>Runs of the send handler\<close>

lemma handleSend_begin_open:
  "\<not> send_blocked st \<Longrightarrow>
   handleSend_begin now st =
     ([SetHistory (\<lambda>prev. prev @ userMessage now (trim (content st))
                           # loadingMessages now (selectedTags st)),
       SetContent [], SetIsLoading True, SetError None],
      Some (tempUserMessageId now,
            \<lparr>req_content = trim (content st), req_tags = selectedTags st\<rparr>))"
  by (simp add: handleSend_begin_def Let_def)

lemma handleSend_net_cong:
  assumes "net \<lparr>req_content = trim (content st), req_tags = selectedTags st\<rparr>
         = net' \<lparr>req_content = trim (content st), req_tags = selectedTags st\<rparr>"
  shows "handleSend now net st = handleSend now net' st"
proof (cases "send_blocked st")
  case True
  then show ?thesis by (simp add: handleSend_def handleSend_begin_def)
next
  case False
  with assms show ?thesis
    by (simp add: handleSend_def handleSend_begin_open sendMessage_def)
qed

lemma handleSend_fulfilled:
  assumes "\<not> send_blocked st"
    and "sendMessage (trim (content st)) (selectedTags st) None net = Fulfilled response"
  shows "handleSend now net st
           = Some (st\<lparr>history := reconcile (tempUserMessageId now) response
                      (history st @ userMessage now (trim (content st))
                         # loadingMessages now (selectedTags st)),
                    content := [], isLoading := False, error := None\<rparr>)"
  using assms
  by (simp add: handleSend_def handleSend_begin_open handleSend_settle_def apply_updates_def)

lemma handleSend_rejected:
  assumes "\<not> send_blocked st"
    and "sendMessage (trim (content st)) (selectedTags st) None net = Rejected err"
  shows "handleSend now net st
           = Some (st\<lparr>history := dropLoading
                      (history st @ userMessage now (trim (content st))
                         # loadingMessages now (selectedTags st)),
                    content := [], isLoading := False,
                    error := Some (''Failed to send message: '' @ err_message err)\<rparr>)"
  using assms
  by (simp add: handleSend_def handleSend_begin_open handleSend_settle_def apply_updates_def)

lemma isLoading_after_settle:
  "isLoading (apply_updates (handleSend_settle tempId outcome) s) = False"
  by (cases outcome) (simp_all add: handleSend_settle_def apply_updates_def)

lemma handleSend_completed_idle:
  assumes "\<not> send_blocked st" and "handleSend now net st = Some st'"
  shows "\<not> isLoading st'"
proof (cases "sendMessage (trim (content st)) (selectedTags st) None net")
  case (Fulfilled response)
  with assms show ?thesis by (auto simp: handleSend_fulfilled)
next
  case (Rejected err)
  with assms show ?thesis by (auto simp: handleSend_rejected)
next
  case Pending
  with assms show ?thesis
    by (simp add: handleSend_def handleSend_begin_open)
qed

section \<open>Facts about the example inputs\<close>

lemma ex_old_id: "msg_id ex_old \<noteq> tempUserMessageId ex_now"
  by (simp add: ex_old_def tempUserMessageId_def)

lemma ex_state_trim: "trim (content ex_state) = ''hi''"
  by (simp add: ex_state_def trim_def is_ws_def)

lemma ex_state_unblocked:
  "trim (content ex_state) \<noteq> [] \<and> selectedTags ex_state \<noteq> [] \<and> \<not> isLoading ex_state"
  by (simp add: ex_state_trim) (simp add: ex_state_def)


lemma ex_send_fulfilled:
  "sendMessage (trim (content ex_state)) (selectedTags ex_state) None ex_net
     = Fulfilled ex_response"
  by (simp add: sendMessage_def fetch_js_def ex_net_def ok_def)


section \<open>Success of a send\<close>

text \<open>
  C1, as stated, fails in its last clause: the replies are appended as the server sent
  them, after the loading-flagged entries have been removed, so a reply that carries a
  loading flag is in the final sequence.
\<close>

theorem flagged_reply_counterexample:
  "sendMessage (trim (content ex_state)) (selectedTags ex_state) None ex_net_flagged
     = Fulfilled \<lparr>userMessageId = ''m1'', replies = [ex_reply_flagged]\<rparr>
   \<and> map_option history (handleSend ex_now ex_net_flagged ex_state)
       = Some [ex_old, (userMessage ex_now ''hi'')\<lparr>msg_id := ''m1''\<rparr>, ex_reply_flagged]
   \<and> msg_isLoading ex_reply_flagged"
proof -
  have sent: "sendMessage (trim (content ex_state)) (selectedTags ex_state) None ex_net_flagged
     = Fulfilled \<lparr>userMessageId = ''m1'', replies = [ex_reply_flagged]\<rparr>"
    by (simp add: sendMessage_def fetch_js_def ex_net_flagged_def ok_def)
  from ex_state_unblocked have "\<not> send_blocked ex_state"
    by (simp add: send_blocked_def)
  from handleSend_fulfilled [OF this sent, of ex_now]
  have "map_option history (handleSend ex_now ex_net_flagged ex_state)
      = Some (map (replaceId (tempUserMessageId ex_now)
                     \<lparr>userMessageId = ''m1'', replies = [ex_reply_flagged]\<rparr>)
                (dropLoading (history ex_state))
              @ [(userMessage ex_now (trim (content ex_state)))\<lparr>msg_id := ''m1''\<rparr>]
              @ [ex_reply_flagged])"
    by (simp add: reconcile_optimistic)
  moreover have "map (replaceId (tempUserMessageId ex_now)
                     \<lparr>userMessageId = ''m1'', replies = [ex_reply_flagged]\<rparr>)
                (dropLoading (history ex_state)) = [ex_old]"
    using ex_old_id by (simp add: ex_state_def dropLoading_def replaceId_def) (simp add: ex_old_def)
  ultimately have "map_option history (handleSend ex_now ex_net_flagged ex_state)
       = Some [ex_old, (userMessage ex_now ''hi'')\<lparr>msg_id := ''m1''\<rparr>, ex_reply_flagged]"
    by (simp add: ex_state_trim)
  with sent show ?thesis by (simp add: ex_reply_flagged_def)
qed

text \<open>
  C1, amended: on success the handler makes one history update and then clears the
  in-flight flag. The update, applied to whatever sequence is current, removes every
  entry flagged as loading, maps the identifier replacement over what is left (an
  entry whose id is the temporary id gets the server's \<open>userMessageId\<close>, whatever
  its content; every other entry is unchanged) and appends the server's replies in
  order. The loading-flagged entries of the result are exactly those among the
  server's replies, so none is left when the replies carry no such flag. For a run of
  the whole handler from a state that passes the guard, the final sequence is the
  earlier unflagged entries, the user message with the server's id, and the replies.
\<close>

theorem successful_send:
  fixes st :: state and now :: "nat \<Rightarrow> int" and response :: send_response
  defines "u \<equiv> userMessage now (trim (content st))"
  shows "handleSend_settle tempId (Inr response)
           = [SetHistory (reconcile tempId response), SetIsLoading False]
       \<and> reconcile tempId response prev
           = map (replaceId tempId response) (filter (\<lambda>m. \<not> msg_isLoading m) prev)
               @ replies response
       \<and> (msg_id m = tempId \<longrightarrow>
            replaceId tempId response m = m\<lparr>msg_id := userMessageId response\<rparr>)
       \<and> (msg_id m \<noteq> tempId \<longrightarrow> replaceId tempId response m = m)
       \<and> filter msg_isLoading (reconcile tempId response prev)
           = filter msg_isLoading (replies response)
       \<and> (list_all (\<lambda>r. \<not> msg_isLoading r) (replies response) \<longrightarrow>
            list_all (\<lambda>m. \<not> msg_isLoading m) (reconcile tempId response prev))
       \<and> (trim (content st) \<noteq> [] \<and> selectedTags st \<noteq> [] \<and> \<not> isLoading st
            \<and> sendMessage (trim (content st)) (selectedTags st) None net = Fulfilled response
          \<longrightarrow> (\<exists>st'. handleSend now net st = Some st'
                 \<and> history st'
                     = map (replaceId (tempUserMessageId now) response)
                         (filter (\<lambda>m. \<not> msg_isLoading m) (history st))
                       @ [u\<lparr>msg_id := userMessageId response\<rparr>] @ replies response
                 \<and> \<not> isLoading st'))"
proof -
  have one: "handleSend_settle tempId (Inr response)
           = [SetHistory (reconcile tempId response), SetIsLoading False]"
    by (simp add: handleSend_settle_def)
  have steps: "reconcile tempId response prev
           = map (replaceId tempId response) (filter (\<lambda>m. \<not> msg_isLoading m) prev)
               @ replies response"
    by (simp add: reconcile_def)
  have hit: "msg_id m = tempId \<longrightarrow>
      replaceId tempId response m = m\<lparr>msg_id := userMessageId response\<rparr>"
    by (simp add: replaceId_def)
  have miss: "msg_id m \<noteq> tempId \<longrightarrow> replaceId tempId response m = m"
    by (simp add: replaceId_def)
  note flagged = filter_loading_reconcile [of tempId response prev]
  have clean: "list_all (\<lambda>r. \<not> msg_isLoading r) (replies response) \<longrightarrow>
      list_all (\<lambda>m. \<not> msg_isLoading m) (reconcile tempId response prev)"
    using reconcile_none_loading by blast
  have run: "\<exists>st'. handleSend now net st = Some st'
                 \<and> history st'
                     = map (replaceId (tempUserMessageId now) response)
                         (filter (\<lambda>m. \<not> msg_isLoading m) (history st))
                       @ [u\<lparr>msg_id := userMessageId response\<rparr>] @ replies response
                 \<and> \<not> isLoading st'"
    if "trim (content st) \<noteq> [] \<and> selectedTags st \<noteq> [] \<and> \<not> isLoading st
        \<and> sendMessage (trim (content st)) (selectedTags st) None net = Fulfilled response"
  proof -
    from that have "\<not> send_blocked st" by (simp add: send_blocked_def)
    with that show ?thesis
      by (simp add: handleSend_fulfilled reconcile_optimistic u_def dropLoading_def)
  qed
  from one steps hit miss flagged clean run show ?thesis by blast
qed

theorem successful_send_witness:
  "map_option history (handleSend ex_now ex_net ex_state)
     = Some [ex_old, (userMessage ex_now ''hi'')\<lparr>msg_id := ''m1''\<rparr>, ex_reply]
   \<and> map_option isLoading (handleSend ex_now ex_net ex_state) = Some False
   \<and> list_all (\<lambda>m. \<not> msg_isLoading m)
        (reconcile (tempUserMessageId ex_now) ex_response
           (history ex_state @ userMessage ex_now ''hi'' # loadingMessages ex_now [''@gpt'']))"
proof -
  note inst = successful_send [where st = ex_state and now = ex_now and net = ex_net
      and response = ex_response and tempId = "tempUserMessageId ex_now"
      and prev = "history ex_state @ userMessage ex_now ''hi'' # loadingMessages ex_now [''@gpt'']"]
  have replies: "list_all (\<lambda>r. \<not> msg_isLoading r) (replies ex_response)"
    by (simp add: ex_response_def ex_reply_def)
  from inst ex_state_unblocked ex_send_fulfilled obtain st'
    where "handleSend ex_now ex_net ex_state = Some st'"
      and "history st'
             = map (replaceId (tempUserMessageId ex_now) ex_response)
                 (filter (\<lambda>m. \<not> msg_isLoading m) (history ex_state))
               @ [(userMessage ex_now (trim (content ex_state)))
                    \<lparr>msg_id := userMessageId ex_response\<rparr>] @ replies ex_response"
      and "\<not> isLoading st'"
    by blast
  moreover have "map (replaceId (tempUserMessageId ex_now) ex_response)
      (filter (\<lambda>m. \<not> msg_isLoading m) (history ex_state)) = [ex_old]"
    using ex_old_id by (simp add: ex_state_def replaceId_def) (simp add: ex_old_def)
  moreover from inst replies
  have "list_all (\<lambda>m. \<not> msg_isLoading m)
        (reconcile (tempUserMessageId ex_now) ex_response
           (history ex_state @ userMessage ex_now ''hi'' # loadingMessages ex_now [''@gpt'']))"
    by blast
  ultimately show ?thesis
    by (simp add: ex_state_trim) (simp add: ex_response_def)
qed

section \<open>The optimistic update\<close>




section \<open>Failure of a send\<close>

text \<open>
  C3: when the request times out (no answer within the default 60000 ms), fails in
  transport, or is answered with a status outside 200..299, \<open>sendMessage\<close> rejects,
  the handler completes, and the final sequence is the earlier entries without the
  loading-flagged ones followed by the optimistic user message as it was synthesized;
  no entry is flagged as loading, the error is \<open>Failed to send message: \<close> followed
  by the rejection's message, and the in-flight flag is false. The failure branch
  does the same to whatever state is current when it runs, and both branches end
  with the in-flight flag false, as does every completed run that passed the guard.
\<close>

theorem failed_send:
  fixes st :: state and now :: "nat \<Rightarrow> int" and net :: "request \<Rightarrow> send_response exchange"
  defines "ex \<equiv> net \<lparr>req_content = trim (content st), req_tags = selectedTags st\<rparr>"
  assumes "trim (content st) \<noteq> []" and "selectedTags st \<noteq> []" and "\<not> isLoading st"
    and "settles_at ex = None \<or> (\<exists>t. settles_at ex = Some t \<and> 60000 < t)
       \<or> (\<exists>t e. settles_at ex = Some t \<and> t \<le> 60000 \<and> settles_with ex = Inl e)
       \<or> (\<exists>t r. settles_at ex = Some t \<and> t \<le> 60000 \<and> settles_with ex = Inr r \<and> \<not> ok r)"
  shows "(\<exists>err st'.
            sendMessage (trim (content st)) (selectedTags st) None net = Rejected err
          \<and> handleSend now net st = Some st'
          \<and> history st' = filter (\<lambda>m. \<not> msg_isLoading m) (history st)
                             @ [userMessage now (trim (content st))]
          \<and> list_all (\<lambda>m. \<not> msg_isLoading m) (history st')
          \<and> error st' = Some (''Failed to send message: '' @ err_message err)
          \<and> \<not> isLoading st')
       \<and> history (apply_updates (handleSend_settle tempId (Inl err')) s)
           = filter (\<lambda>m. \<not> msg_isLoading m) (history s)
       \<and> error (apply_updates (handleSend_settle tempId (Inl err')) s)
           = Some (''Failed to send message: '' @ err_message err')
       \<and> isLoading (apply_updates (handleSend_settle tempId (Inl err')) s) = False
       \<and> isLoading (apply_updates (handleSend_settle tempId (Inr response)) s) = False
       \<and> (handleSend now other st = Some done_st \<longrightarrow> \<not> isLoading done_st)"
proof -
  from assms(2-4) have unblocked: "\<not> send_blocked st"
    by (simp add: send_blocked_def)
  from assms(5) have "\<exists>err. sendMessage (trim (content st)) (selectedTags st) (Some 60000) net
      = Rejected err"
    unfolding ex_def
    using sendMessage_aborted [of net "trim (content st)" "selectedTags st" 60000]
      sendMessage_transport_failure [of net "trim (content st)" "selectedTags st" _ 60000]
      sendMessage_bad_status [of net "trim (content st)" "selectedTags st" _ 60000]
    by metis
  then obtain err
    where rej: "sendMessage (trim (content st)) (selectedTags st) None net = Rejected err"
    by (auto simp: sendMessage_default)
  define st' where "st' = st\<lparr>history := dropLoading
                      (history st @ userMessage now (trim (content st))
                         # loadingMessages now (selectedTags st)),
                    content := [], isLoading := False,
                    error := Some (''Failed to send message: '' @ err_message err)\<rparr>"
  from unblocked rej have run: "handleSend now net st = Some st'"
    unfolding st'_def by (rule handleSend_rejected)
  have hist: "history st' = filter (\<lambda>m. \<not> msg_isLoading m) (history st)
                             @ [userMessage now (trim (content st))]"
    by (simp add: st'_def dropLoading_optimistic) (simp add: dropLoading_def)
  have clean: "list_all (\<lambda>m. \<not> msg_isLoading m) (history st')"
    by (simp add: st'_def dropLoading_none_loading)
  have err: "error st' = Some (''Failed to send message: '' @ err_message err)"
    and idle: "\<not> isLoading st'"
    by (simp_all add: st'_def)
  have phase: "history (apply_updates (handleSend_settle tempId (Inl err')) s)
           = filter (\<lambda>m. \<not> msg_isLoading m) (history s)
       \<and> error (apply_updates (handleSend_settle tempId (Inl err')) s)
           = Some (''Failed to send message: '' @ err_message err')"
    by (simp add: handleSend_settle_def apply_updates_def dropLoading_def)
  from rej run hist clean err idle phase
    isLoading_after_settle [of tempId "Inl err'" s]
    isLoading_after_settle [of tempId "Inr response" s]
    handleSend_completed_idle [OF unblocked, of now other done_st]
  show ?thesis by blast
qed

theorem failed_send_witness:
  "map_option history (handleSend ex_now ex_net_slow ex_state)
     = Some [ex_old, userMessage ex_now ''hi'']
   \<and> map_option error (handleSend ex_now ex_net_slow ex_state)
     = Some (Some ''Failed to send message: The operation was aborted.'')
   \<and> map_option isLoading (handleSend ex_now ex_net_slow ex_state) = Some False
   \<and> map_option error (handleSend ex_now ex_net_500 ex_state)
     = Some (Some ''Failed to send message: POST /send failed: 500 boom'')
   \<and> map_option isLoading (handleSend ex_now ex_net ex_state) = Some False"
proof -
  have slow: "settles_at (ex_net_slow \<lparr>req_content = trim (content ex_state),
        req_tags = selectedTags ex_state\<rparr>) = None
      \<or> (\<exists>t. settles_at (ex_net_slow \<lparr>req_content = trim (content ex_state),
        req_tags = selectedTags ex_state\<rparr>) = Some t \<and> 60000 < t)
      \<or> (\<exists>t e. settles_at (ex_net_slow \<lparr>req_content = trim (content ex_state),
        req_tags = selectedTags ex_state\<rparr>) = Some t \<and> t \<le> 60000
          \<and> settles_with (ex_net_slow \<lparr>req_content = trim (content ex_state),
        req_tags = selectedTags ex_state\<rparr>) = Inl e)
      \<or> (\<exists>t r. settles_at (ex_net_slow \<lparr>req_content = trim (content ex_state),
        req_tags = selectedTags ex_state\<rparr>) = Some t \<and> t \<le> 60000
          \<and> settles_with (ex_net_slow \<lparr>req_content = trim (content ex_state),
        req_tags = selectedTags ex_state\<rparr>) = Inr r \<and> \<not> ok r)"
    by (simp add: ex_net_slow_def)
  have bad: "settles_at (ex_net_500 \<lparr>req_content = trim (content ex_state),
        req_tags = selectedTags ex_state\<rparr>) = None
      \<or> (\<exists>t. settles_at (ex_net_500 \<lparr>req_content = trim (content ex_state),
        req_tags = selectedTags ex_state\<rparr>) = Some t \<and> 60000 < t)
      \<or> (\<exists>t e. settles_at (ex_net_500 \<lparr>req_content = trim (content ex_state),
        req_tags = selectedTags ex_state\<rparr>) = Some t \<and> t \<le> 60000
          \<and> settles_with (ex_net_500 \<lparr>req_content = trim (content ex_state),
        req_tags = selectedTags ex_state\<rparr>) = Inl e)
      \<or> (\<exists>t r. settles_at (ex_net_500 \<lparr>req_content = trim (content ex_state),
        req_tags = selectedTags ex_state\<rparr>) = Some t \<and> t \<le> 60000
          \<and> settles_with (ex_net_500 \<lparr>req_content = trim (content ex_state),
        req_tags = selectedTags ex_state\<rparr>) = Inr r \<and> \<not> ok r)"
    by (simp add: ex_net_500_def ok_def)
  note unblocked = ex_state_unblocked [THEN conjunct1]
    ex_state_unblocked [THEN conjunct2, THEN conjunct1]
    ex_state_unblocked [THEN conjunct2, THEN conjunct2]
  obtain st3 where ok_run: "handleSend ex_now ex_net ex_state = Some st3"
    using ex_state_unblocked ex_send_fulfilled
    by (simp add: handleSend_fulfilled send_blocked_def)
  from failed_send [where st = ex_state and net = ex_net_slow and now = ex_now
      and other = ex_net and done_st = st3, OF unblocked slow] ok_run
  obtain err st' where
    "sendMessage (trim (content ex_state)) (selectedTags ex_state) None ex_net_slow = Rejected err"
    and "handleSend ex_now ex_net_slow ex_state = Some st'"
    and "history st' = filter (\<lambda>m. \<not> msg_isLoading m) (history ex_state)
           @ [userMessage ex_now (trim (content ex_state))]"
    and "error st' = Some (''Failed to send message: '' @ err_message err)"
    and "\<not> isLoading st'"
    and idle: "\<not> isLoading st3"
    by blast
  moreover have "sendMessage (trim (content ex_state)) (selectedTags ex_state) None ex_net_slow
      = Rejected (AbortError ''The operation was aborted.'')"
    by (simp add: sendMessage_def fetch_js_def ex_net_slow_def ex_net_def)
  ultimately have slow_run:
    "map_option history (handleSend ex_now ex_net_slow ex_state)
       = Some [ex_old, userMessage ex_now ''hi'']
     \<and> map_option error (handleSend ex_now ex_net_slow ex_state)
       = Some (Some ''Failed to send message: The operation was aborted.'')
     \<and> map_option isLoading (handleSend ex_now ex_net_slow ex_state) = Some False"
    by (simp add: ex_state_trim) (simp add: ex_state_def ex_old_def)
  from failed_send [where st = ex_state and net = ex_net_500 and now = ex_now,
      OF unblocked bad]
  obtain err2 st2 where
    "sendMessage (trim (content ex_state)) (selectedTags ex_state) None ex_net_500 = Rejected err2"
    and "handleSend ex_now ex_net_500 ex_state = Some st2"
    and "error st2 = Some (''Failed to send message: '' @ err_message err2)"
    by blast
  moreover have "sendMessage (trim (content ex_state)) (selectedTags ex_state) None ex_net_500
      = Rejected (Error ''POST /send failed: 500 boom'')"
    by (simp add: sendMessage_def fetch_js_def ex_net_500_def ok_def show_nat.simps
        digit_char_def)
  ultimately have bad_run: "map_option error (handleSend ex_now ex_net_500 ex_state)
       = Some (Some ''Failed to send message: POST /send failed: 500 boom'')"
    by auto
  from ok_run idle have "map_option isLoading (handleSend ex_now ex_net ex_state) = Some False"
    by simp
  with slow_run bad_run show ?thesis by blast
qed

section \<open>The guard of the send handler\<close>

text \<open>
  C4: when the trimmed composer text is empty, or no tag is selected, or a send is in
  flight, the handler makes no setter call and issues no request; the state after it
  is the state before it, whatever the network would have answered.
\<close>

theorem blocked_send_is_noop:
  assumes "trim (content st) = [] \<or> selectedTags st = [] \<or> isLoading st"
  shows "handleSend_begin now st = ([], None)
       \<and> apply_updates (fst (handleSend_begin now st)) st = st
       \<and> handleSend now net st = Some st"
proof -
  from assms have "send_blocked st" by (simp add: send_blocked_def)
  then have b: "handleSend_begin now st = ([], None)" by (simp add: handleSend_begin_def)
  then show ?thesis by (simp add: handleSend_def apply_updates_def)
qed

theorem blocked_send_is_noop_witness:
  "handleSend ex_now ex_net (ex_state\<lparr>content := [CHR '' '', CHR 0x09]\<rparr>)
     = Some (ex_state\<lparr>content := [CHR '' '', CHR 0x09]\<rparr>)
   \<and> handleSend ex_now ex_net (ex_state\<lparr>selectedTags := []\<rparr>)
     = Some (ex_state\<lparr>selectedTags := []\<rparr>)
   \<and> handleSend ex_now ex_net (ex_state\<lparr>isLoading := True\<rparr>)
     = Some (ex_state\<lparr>isLoading := True\<rparr>)"
proof -
  have blank: "trim (content (ex_state\<lparr>content := [CHR '' '', CHR 0x09]\<rparr>)) = []"
    by (simp add: trim_def is_ws_def)
  have none: "selectedTags (ex_state\<lparr>selectedTags := []\<rparr>) = []"
    by simp
  have busy: "isLoading (ex_state\<lparr>isLoading := True\<rparr>)"
    by simp
  from blank none busy show ?thesis
    using blocked_send_is_noop [of "ex_state\<lparr>content := [CHR '' '', CHR 0x09]\<rparr>" ex_now ex_net]
      blocked_send_is_noop [of "ex_state\<lparr>selectedTags := []\<rparr>" ex_now ex_net]
      blocked_send_is_noop [of "ex_state\<lparr>isLoading := True\<rparr>" ex_now ex_net]
    by blast
qed

section \<open>The timeout of sendMessage\<close>

text \<open>
  The timeout defaults to 60000 ms. When \<open>fetch\<close> has not settled by the timeout
  (it never settles, or would settle later), the call rejects with the abort error.
\<close>

theorem sendMessage_timeout:
  fixes net :: "request \<Rightarrow> send_response exchange" and cont :: string
    and tags :: "string list"
  defines "ex \<equiv> net \<lparr>req_content = cont, req_tags = tags\<rparr>"
  shows "sendMessage cont tags None net = sendMessage cont tags (Some 60000) net
       \<and> (settles_at ex = None \<or> (\<exists>t. settles_at ex = Some t \<and> T < t) \<longrightarrow>
            sendMessage cont tags (Some T) net = Rejected (AbortError (abort_reason ex)))
       \<and> (settles_at ex = None \<or> (\<exists>t. settles_at ex = Some t \<and> 60000 < t) \<longrightarrow>
            sendMessage cont tags None net = Rejected (AbortError (abort_reason ex)))"
proof -
  have default: "sendMessage cont tags None net = sendMessage cont tags (Some 60000) net"
    by (rule sendMessage_default)
  have aborted: "sendMessage cont tags (Some limit) net = Rejected (AbortError (abort_reason ex))"
    if "settles_at ex = None \<or> (\<exists>t. settles_at ex = Some t \<and> limit < t)" for limit
    using that unfolding ex_def by (rule sendMessage_aborted)
  from aborted [of T] have given: "settles_at ex = None \<or> (\<exists>t. settles_at ex = Some t \<and> T < t)
      \<longrightarrow> sendMessage cont tags (Some T) net = Rejected (AbortError (abort_reason ex))"
    by blast
  from aborted [of 60000] default
  have unset: "settles_at ex = None \<or> (\<exists>t. settles_at ex = Some t \<and> 60000 < t)
      \<longrightarrow> sendMessage cont tags None net = Rejected (AbortError (abort_reason ex))"
    by simp
  from default given unset show ?thesis by blast
qed

theorem sendMessage_timeout_witness:
  "sendMessage ''hi'' [''@gpt''] None ex_net_slow
     = Rejected (AbortError ''The operation was aborted.'')
   \<and> sendMessage ''hi'' [''@gpt''] (Some 500) ex_net
     = Rejected (AbortError ''The operation was aborted.'')"
proof -
  have slow: "settles_at (ex_net_slow \<lparr>req_content = ''hi'', req_tags = [''@gpt'']\<rparr>) = None
      \<or> (\<exists>t. settles_at (ex_net_slow \<lparr>req_content = ''hi'', req_tags = [''@gpt'']\<rparr>) = Some t
            \<and> 60000 < t)"
    by (simp add: ex_net_slow_def)
  have short: "settles_at (ex_net \<lparr>req_content = ''hi'', req_tags = [''@gpt'']\<rparr>) = None
      \<or> (\<exists>t. settles_at (ex_net \<lparr>req_content = ''hi'', req_tags = [''@gpt'']\<rparr>) = Some t
            \<and> 500 < t)"
    by (simp add: ex_net_def)
  from slow short
    sendMessage_timeout [of "''hi''" "[''@gpt'']" ex_net_slow]
    sendMessage_timeout [of "''hi''" "[''@gpt'']" ex_net 500]
  have "sendMessage ''hi'' [''@gpt''] None ex_net_slow
     = Rejected (AbortError (abort_reason (ex_net_slow \<lparr>req_content = ''hi'', req_tags = [''@gpt'']\<rparr>)))
   \<and> sendMessage ''hi'' [''@gpt''] (Some 500) ex_net
     = Rejected (AbortError (abort_reason (ex_net \<lparr>req_content = ''hi'', req_tags = [''@gpt'']\<rparr>)))"
    by blast
  then show ?thesis by (simp add: ex_net_slow_def ex_net_def)
qed

section \<open>The read of a success body\<close>

text \<open>
  When the response arrives within the timeout with a status in 200..299, the result
  of \<open>sendMessage\<close> is the result of \<open>response.json()\<close>, which is returned without
  being awaited: the \<open>finally\<close> block has cleared the timer by then. So when that
  read never settles, the call never settles either, and a run of the send handler
  does not get past its \<open>await\<close>: the in-flight flag set before it stays true.
\<close>

theorem body_read_not_timed:
  fixes net :: "request \<Rightarrow> send_response exchange" and st :: state
  defines "ex \<equiv> net \<lparr>req_content = trim (content st), req_tags = selectedTags st\<rparr>"
  assumes "settles_at ex = Some t" and "t \<le> 60000" and "settles_with ex = Inr r" and "ok r"
  shows "sendMessage (trim (content st)) (selectedTags st) None net = json_result r
       \<and> (json_result r = Pending \<and> trim (content st) \<noteq> [] \<and> selectedTags st \<noteq> []
            \<and> \<not> isLoading st
          \<longrightarrow> handleSend now net st = None
              \<and> isLoading (apply_updates (fst (handleSend_begin now st)) st))"
proof -
  from assms(2-5) have r: "sendMessage (trim (content st)) (selectedTags st) None net
      = json_result r"
    unfolding ex_def sendMessage_default by (rule sendMessage_success)
  have "handleSend now net st = None
      \<and> isLoading (apply_updates (fst (handleSend_begin now st)) st)"
    if "json_result r = Pending \<and> trim (content st) \<noteq> [] \<and> selectedTags st \<noteq> []
        \<and> \<not> isLoading st"
  proof -
    from that have "\<not> send_blocked st" by (simp add: send_blocked_def)
    with that r show ?thesis
      by (simp add: handleSend_def handleSend_begin_open apply_updates_def)
  qed
  with r show ?thesis by blast
qed

text \<open>
  C5: a request that outlasts the timeout is to be aborted and the call to reject
  with the abort error instead of hanging. The code does so while it waits for the
  response, and while it reads the body of a response with a failure status
  (\<open>response.text()\<close> is awaited inside the \<open>try\<close> block). It does not for the body
  of a response with a success status: with a response that arrives after 40 ms
  with status 200 and a body that never completes, the call stays pending, the send
  handler never completes and the in-flight flag stays true.
\<close>

theorem sendMessage_stalled_body:
  "settles_at (ex_net_stall \<lparr>req_content = ''hi'', req_tags = [''@gpt'']\<rparr>) = Some 40
   \<and> sendMessage ''hi'' [''@gpt''] None ex_net_stall = Pending
   \<and> handleSend ex_now ex_net_stall ex_state = None
   \<and> isLoading (apply_updates (fst (handleSend_begin ex_now ex_state)) ex_state)"
proof -
  have head: "settles_at (ex_net_stall \<lparr>req_content = ''hi'', req_tags = [''@gpt'']\<rparr>) = Some 40"
    by (simp add: ex_net_stall_def)
  have call: "sendMessage ''hi'' [''@gpt''] None ex_net_stall = Pending"
    by (simp add: sendMessage_def fetch_js_def ex_net_stall_def ok_def)
  have unblocked: "\<not> send_blocked ex_state"
    using ex_state_unblocked by (simp add: send_blocked_def)
  have args: "trim (content ex_state) = ''hi''" "selectedTags ex_state = [''@gpt'']"
    by (simp_all add: ex_state_trim) (simp add: ex_state_def)
  from unblocked call args have run: "handleSend ex_now ex_net_stall ex_state = None"
    by (simp add: handleSend_def handleSend_begin_open)
  from unblocked
  have flag: "isLoading (apply_updates (fst (handleSend_begin ex_now ex_state)) ex_state)"
    by (simp add: handleSend_begin_open apply_updates_def)
  from head call run flag show ?thesis by blast
qed

section \<open>The reset flow\<close>

text \<open>
  C6, as stated, fails: success of a reset is not determined by the status alone. A
  response with status 204 and an empty body passes the status check, but
  \<open>resetChat\<close> returns \<open>response.json()\<close>, which rejects; the handler then sets
  the error and leaves the sequence as it was.
\<close>

theorem reset_status_only_counterexample:
  "settles_with ex_reset_undecodable
     = Inr \<lparr>status = 204, text_result = Inr [],
            json_result = Rejected (SyntaxError ''Unexpected end of JSON input'')\<rparr>
   \<and> ok \<lparr>status = 204, text_result = Inr [],
          json_result = (Rejected (SyntaxError ''Unexpected end of JSON input'') :: unit promise)\<rparr>
   \<and> handleReset ex_reset_undecodable ex_state
       = Some (ex_state\<lparr>error :=
                 Some ''Failed to reset chat: Unexpected end of JSON input''\<rparr>)
   \<and> history (ex_state\<lparr>error :=
                 Some ''Failed to reset chat: Unexpected end of JSON input''\<rparr>) = [ex_old]"
  by (simp add: ex_reset_undecodable_def ok_def handleReset_def resetChat_def fetch_js_def
      handleReset_settle_def apply_updates_def ex_state_def)

text \<open>
  C6, amended: when \<open>resetChat\<close> fulfils, the handler empties the sequence and
  clears the error, whatever the decoded body is; when it rejects, the handler sets
  the error to \<open>Failed to reset chat: \<close> followed by the rejection's message and
  changes nothing else. \<open>resetChat\<close> fulfils exactly when \<open>fetch\<close> settles with a
  response whose status is in 200..299 and whose body decodes as JSON; it rejects on
  a status outside that range, on a body that does not decode, and on a transport
  failure.
\<close>

theorem reset_flow:
  fixes ex :: "'a exchange" and st :: state
  shows "(resetChat ex = Fulfilled body \<longrightarrow>
            handleReset ex st = Some (st\<lparr>history := [], error := None\<rparr>))
       \<and> (resetChat ex = Rejected err \<longrightarrow>
            handleReset ex st
              = Some (st\<lparr>error := Some (''Failed to reset chat: '' @ err_message err)\<rparr>))
       \<and> (resetChat ex = Fulfilled body \<longleftrightarrow>
            (\<exists>t r. settles_at ex = Some t \<and> settles_with ex = Inr r \<and> ok r
                   \<and> json_result r = Fulfilled body))
       \<and> (settles_at ex = Some t \<and> settles_with ex = Inr r \<and> \<not> ok r \<longrightarrow>
            resetChat ex = Rejected (Error (''POST /reset failed: '' @ show_nat (status r))))
       \<and> (settles_at ex = Some t \<and> settles_with ex = Inr r \<and> ok r
            \<and> json_result r = Rejected err \<longrightarrow> resetChat ex = Rejected err)
       \<and> (settles_at ex = Some t \<and> settles_with ex = Inl err \<longrightarrow> resetChat ex = Rejected err)"
proof -
  have cleared: "resetChat ex = Fulfilled body \<longrightarrow>
      handleReset ex st = Some (st\<lparr>history := [], error := None\<rparr>)"
    by (simp add: handleReset_def handleReset_settle_def apply_updates_def)
  have kept: "resetChat ex = Rejected err \<longrightarrow>
      handleReset ex st
        = Some (st\<lparr>error := Some (''Failed to reset chat: '' @ err_message err)\<rparr>)"
    by (simp add: handleReset_def handleReset_settle_def apply_updates_def)
  have status: "settles_at ex = Some t \<and> settles_with ex = Inr r \<and> \<not> ok r \<longrightarrow>
      resetChat ex = Rejected (Error (''POST /reset failed: '' @ show_nat (status r)))"
    by (simp add: resetChat_def fetch_js_no_signal)
  have decode: "settles_at ex = Some t \<and> settles_with ex = Inr r \<and> ok r
      \<and> json_result r = Rejected err \<longrightarrow> resetChat ex = Rejected err"
    by (simp add: resetChat_def fetch_js_no_signal)
  have transport: "settles_at ex = Some t \<and> settles_with ex = Inl err \<longrightarrow>
      resetChat ex = Rejected err"
    by (simp add: resetChat_def fetch_js_no_signal)
  from cleared kept resetChat_fulfilled_iff [of ex body] status decode transport
  show ?thesis by blast
qed

theorem reset_flow_witness:
  "handleReset ex_reset_ok ex_state = Some (ex_state\<lparr>history := [], error := None\<rparr>)
   \<and> handleReset ex_reset_undecodable ex_state
       = Some (ex_state\<lparr>error := Some (''Failed to reset chat: ''
                 @ err_message (SyntaxError ''Unexpected end of JSON input''))\<rparr>)"
proof -
  have good: "resetChat ex_reset_ok = Fulfilled ()"
    by (simp add: resetChat_def fetch_js_def ex_reset_ok_def ok_def)
  have decode: "settles_at ex_reset_undecodable = Some 80
      \<and> settles_with ex_reset_undecodable
          = Inr \<lparr>status = 204, text_result = Inr [],
                 json_result = Rejected (SyntaxError ''Unexpected end of JSON input'')\<rparr>
      \<and> ok \<lparr>status = 204, text_result = Inr [],
          json_result = (Rejected (SyntaxError ''Unexpected end of JSON input'') :: unit promise)\<rparr>
      \<and> json_result \<lparr>status = 204, text_result = Inr [],
          json_result = (Rejected (SyntaxError ''Unexpected end of JSON input'') :: unit promise)\<rparr>
          = Rejected (SyntaxError ''Unexpected end of JSON input'')"
    by (simp add: ex_reset_undecodable_def ok_def)
  from good reset_flow [of ex_reset_ok "()" ex_state]
  have "handleReset ex_reset_ok ex_state = Some (ex_state\<lparr>history := [], error := None\<rparr>)"
    by blast
  moreover from decode
    reset_flow [of ex_reset_undecodable _ ex_state
      "SyntaxError ''Unexpected end of JSON input''" 80
      "\<lparr>status = 204, text_result = Inr [],
        json_result = Rejected (SyntaxError ''Unexpected end of JSON input'')\<rparr>"]
  have "handleReset ex_reset_undecodable ex_state
       = Some (ex_state\<lparr>error := Some (''Failed to reset chat: ''
                 @ err_message (SyntaxError ''Unexpected end of JSON input''))\<rparr>)"
    by blast
  ultimately show ?thesis by blast
qed

section \<open>Failure statuses of sendMessage\<close>

text \<open>
  C7: when \<open>fetch\<close> settles within the timeout with a response whose status is
  outside 200..299, the call rejects with an \<open>Error\<close> whose message is
  \<open>POST /send failed: \<close>, the status in decimal, a space, and the body text when
  the body could be read; when the read of the body fails, the message ends after
  the space, and the call still rejects with the status in its message.
\<close>

theorem sendMessage_status_error:
  fixes net :: "request \<Rightarrow> send_response exchange" and cont :: string
    and tags :: "string list" and timeoutMs :: "nat option"
  defines "ex \<equiv> net \<lparr>req_content = cont, req_tags = tags\<rparr>"
  defines "limit \<equiv> (case timeoutMs of None \<Rightarrow> 60000 | Some T \<Rightarrow> T)"
  assumes "settles_at ex = Some t" and "t \<le> limit" and "settles_with ex = Inr r" and "\<not> ok r"
  shows "(text_result r = Inr body \<longrightarrow>
            sendMessage cont tags timeoutMs net
              = Rejected (Error (''POST /send failed: '' @ show_nat (status r) @ '' '' @ body)))
       \<and> (text_result r = Inl e \<longrightarrow>
            sendMessage cont tags timeoutMs net
              = Rejected (Error (''POST /send failed: '' @ show_nat (status r) @ '' '')))"
proof -
  have "sendMessage cont tags timeoutMs net = sendMessage cont tags (Some limit) net"
    by (simp add: limit_def sendMessage_def split: option.splits)
  also have "\<dots> = Rejected (Error (''POST /send failed: '' @ show_nat (status r) @ '' ''
                                @ (case text_result r of Inl e \<Rightarrow> [] | Inr body \<Rightarrow> body)))"
    using assms(3-6) unfolding ex_def by (rule sendMessage_bad_status)
  finally show ?thesis by simp
qed

theorem sendMessage_status_error_witness:
  "sendMessage ''hi'' [''@gpt''] None ex_net_500
     = Rejected (Error (''POST /send failed: '' @ show_nat 500 @ '' '' @ ''boom''))
   \<and> sendMessage ''hi'' [''@gpt''] (Some 1000) ex_net_503
     = Rejected (Error (''POST /send failed: '' @ show_nat 503 @ '' ''))"
proof -
  have a: "settles_at (ex_net_500 \<lparr>req_content = ''hi'', req_tags = [''@gpt'']\<rparr>) = Some 300"
    "(300::nat) \<le> (case None of None \<Rightarrow> 60000 | Some T \<Rightarrow> T)"
    "settles_with (ex_net_500 \<lparr>req_content = ''hi'', req_tags = [''@gpt'']\<rparr>)
       = Inr \<lparr>status = 500, text_result = Inr ''boom'',
              json_result = Rejected (SyntaxError ''Unexpected token'')\<rparr>"
    "\<not> ok \<lparr>status = 500, text_result = Inr ''boom'',
              json_result = (Rejected (SyntaxError ''Unexpected token'') :: send_response promise)\<rparr>"
    by (simp_all add: ex_net_500_def ok_def)
  have b: "settles_at (ex_net_503 \<lparr>req_content = ''hi'', req_tags = [''@gpt'']\<rparr>) = Some 300"
    "(300::nat) \<le> (case Some 1000 of None \<Rightarrow> 60000 | Some T \<Rightarrow> T)"
    "settles_with (ex_net_503 \<lparr>req_content = ''hi'', req_tags = [''@gpt'']\<rparr>)
       = Inr \<lparr>status = 503, text_result = Inl (TypeError ''network error''),
              json_result = Rejected (TypeError ''network error'')\<rparr>"
    "\<not> ok \<lparr>status = 503, text_result = Inl (TypeError ''network error''),
              json_result = (Rejected (TypeError ''network error'') :: send_response promise)\<rparr>"
    by (simp_all add: ex_net_503_def ok_def)
  from sendMessage_status_error [where net = ex_net_500 and cont = "''hi''"
      and tags = "[''@gpt'']" and timeoutMs = None and body = "''boom''", OF a]
    sendMessage_status_error [where net = ex_net_503 and cont = "''hi''"
      and tags = "[''@gpt'']" and timeoutMs = "Some 1000"
      and e = "TypeError ''network error''", OF b]
  show ?thesis by simp
qed

section \<open>The arguments of the request\<close>

text \<open>
  C8: a send that passes the guard calls \<open>sendMessage\<close> with the trimmed composer
  text and with the selection as it is, in order and with every tag's first character
  in place; the run depends on the network only through its answer to that request.
  The trimmed text is the composer text without a run of white space at each end,
  and it neither starts nor ends with white space. Only the placeholders' authors
  are the tags without their first character.
\<close>

theorem send_arguments:
  assumes "trim (content st) \<noteq> []" and "selectedTags st \<noteq> []" and "\<not> isLoading st"
  shows "snd (handleSend_begin now st)
           = Some (tempUserMessageId now,
                   \<lparr>req_content = trim (content st), req_tags = selectedTags st\<rparr>)
       \<and> (net \<lparr>req_content = trim (content st), req_tags = selectedTags st\<rparr>
            = net' \<lparr>req_content = trim (content st), req_tags = selectedTags st\<rparr>
          \<longrightarrow> handleSend now net st = handleSend now net' st)
       \<and> (\<exists>pre post. content st = pre @ trim (content st) @ post
            \<and> list_all is_ws pre \<and> list_all is_ws post)
       \<and> \<not> is_ws (hd (trim (content st))) \<and> \<not> is_ws (last (trim (content st)))
       \<and> map author (loadingMessages now (selectedTags st)) = map (drop 1) (selectedTags st)"
proof -
  from assms have unblocked: "\<not> send_blocked st" by (simp add: send_blocked_def)
  then have "snd (handleSend_begin now st)
           = Some (tempUserMessageId now,
                   \<lparr>req_content = trim (content st), req_tags = selectedTags st\<rparr>)"
    by (simp add: handleSend_begin_open)
  moreover have "net \<lparr>req_content = trim (content st), req_tags = selectedTags st\<rparr>
            = net' \<lparr>req_content = trim (content st), req_tags = selectedTags st\<rparr>
          \<longrightarrow> handleSend now net st = handleSend now net' st"
    using handleSend_net_cong by blast
  moreover note trim_decompose [of "content st"]
  moreover from assms(1) have "\<not> is_ws (hd (trim (content st)))" by (rule trim_hd)
  moreover from assms(1) have "\<not> is_ws (last (trim (content st)))" by (rule trim_last)
  moreover note authors_loadingMessages [of now "selectedTags st"]
  ultimately show ?thesis by blast
qed

theorem send_arguments_witness:
  "snd (handleSend_begin ex_now ex_state)
     = Some (tempUserMessageId ex_now, \<lparr>req_content = ''hi'', req_tags = [''@gpt'']\<rparr>)
   \<and> map author (loadingMessages ex_now [''@gpt'']) = [''gpt'']"
proof -
  have "trim (content ex_state) \<noteq> []" "selectedTags ex_state \<noteq> []" "\<not> isLoading ex_state"
    by (simp_all add: ex_state_trim) (simp_all add: ex_state_def)
  from send_arguments [OF this, of ex_now ex_net ex_net] show ?thesis
    by (simp add: ex_state_trim) (simp add: ex_state_def)
qed

section \<open>Identifiers of synthesized entries\<close>

text \<open>
  C10: the ids of the entries synthesized by one send are pairwise distinct: the user
  message's id is \<open>temp_\<close> followed by a clock reading, the id of the placeholder at
  \<open>index\<close> is \<open>loading_\<close>, a clock reading, an underscore and the index. Hence the
  identifier replacement of the success branch, applied to the entries of that send,
  rewrites the user message and no placeholder; and when no earlier entry carries the
  temporary id, reconciling the sequence left by the optimistic update keeps the earlier
  unflagged entries as they are, rewrites the one user message and appends the replies.
\<close>

theorem synthesized_ids:
  "distinct (map msg_id (userMessage now c # loadingMessages now tags))
   \<and> msg_id (userMessage now c) = ''temp_'' @ show_int (now 0)
   \<and> (\<forall>i < length tags.
        msg_id (loadingMessages now tags ! i)
          = ''loading_'' @ show_int (now (2 + 2 * i)) @ ''_'' @ show_nat i)
   \<and> map (replaceId (tempUserMessageId now) response)
        (userMessage now c # loadingMessages now tags)
       = (userMessage now c)\<lparr>msg_id := userMessageId response\<rparr> # loadingMessages now tags
   \<and> ((\<forall>m \<in> set prev. msg_id m \<noteq> tempUserMessageId now) \<longrightarrow>
        reconcile (tempUserMessageId now) response
          (prev @ userMessage now c # loadingMessages now tags)
        = dropLoading prev @ [(userMessage now c)\<lparr>msg_id := userMessageId response\<rparr>]
            @ replies response)"
proof -
  have d: "distinct (map msg_id (userMessage now c # loadingMessages now tags))"
    using temp_id_not_loading_id [of now tags] distinct_loading_ids [of now tags]
    by (simp add: userMessage_def)
  have u: "msg_id (userMessage now c) = ''temp_'' @ show_int (now 0)"
    by (simp add: userMessage_def tempUserMessageId_def)
  have l: "\<forall>i < length tags. msg_id (loadingMessages now tags ! i)
      = ''loading_'' @ show_int (now (2 + 2 * i)) @ ''_'' @ show_nat i"
    by (simp add: nth_loadingMessages loadingMessage_def)
  have r: "map (replaceId (tempUserMessageId now) response)
        (userMessage now c # loadingMessages now tags)
       = (userMessage now c)\<lparr>msg_id := userMessageId response\<rparr> # loadingMessages now tags"
    by (simp only: list.map replaceId_loadingMessages replaceId_userMessage)
  have e: "reconcile (tempUserMessageId now) response
          (prev @ userMessage now c # loadingMessages now tags)
        = dropLoading prev @ [(userMessage now c)\<lparr>msg_id := userMessageId response\<rparr>]
            @ replies response"
    if "\<forall>m \<in> set prev. msg_id m \<noteq> tempUserMessageId now"
  proof -
    from that have "\<forall>m \<in> set (dropLoading prev). msg_id m \<noteq> tempUserMessageId now"
      by (simp add: dropLoading_def)
    then have "map (replaceId (tempUserMessageId now) response) (dropLoading prev)
        = dropLoading prev"
      by (rule replaceId_other)
    then show ?thesis
      by (simp add: reconcile_dropLoading dropLoading_optimistic replaceId_userMessage)
  qed
  from d u l r e show ?thesis by blast
qed

theorem synthesized_ids_witness:
  "distinct (map msg_id (userMessage ex_now ''hi'' # loadingMessages ex_now [''@gpt'', ''@claude'']))
   \<and> msg_id (loadingMessages ex_now [''@gpt'', ''@claude''] ! 1)
       = ''loading_'' @ show_int (ex_now (2 + 2 * 1)) @ ''_'' @ show_nat 1
   \<and> reconcile (tempUserMessageId ex_now) ex_response
        ([ex_old] @ userMessage ex_now ''hi'' # loadingMessages ex_now [''@gpt'', ''@claude''])
       = dropLoading [ex_old] @ [(userMessage ex_now ''hi'')\<lparr>msg_id := userMessageId ex_response\<rparr>]
           @ replies ex_response"
proof -
  note inst = synthesized_ids [where now = ex_now and c = "''hi''" and
      tags = "[''@gpt'', ''@claude'']" and response = ex_response and prev = "[ex_old]"]
  have index: "1 < length [''@gpt'', ''@claude'']" by simp
  have fresh: "\<forall>m \<in> set [ex_old]. msg_id m \<noteq> tempUserMessageId ex_now"
    by (simp add: ex_old_id)
  from inst index fresh show ?thesis by blast
qed

section \<open>Tag selection: properties\<close>

lemma toggleTag_updater_absent:
  "tag \<notin> set prev \<Longrightarrow> toggleTag_updater tag prev = prev @ [tag]"
  by (simp add: toggleTag_updater_def)

lemma toggleTag_updater_present:
  "tag \<in> set prev \<Longrightarrow> toggleTag_updater tag prev = filter (\<lambda>t. t \<noteq> tag) prev"
  by (simp add: toggleTag_updater_def)

lemma filter_neq_absent: "tag \<notin> set prev \<Longrightarrow> filter (\<lambda>t. t \<noteq> tag) prev = prev"
  by (simp add: filter_id_conv) blast

lemma selectedTags_toggleTag:
  "selectedTags (apply_updates (toggleTag tag) st) = toggleTag_updater tag (selectedTags st)"
  by (simp add: toggleTag_def apply_updates_def)

text \<open>
  C9, as stated, fails: toggling a selected tag twice does not give the selection back
  when the tag was not the last one. With \<open>@gpt\<close> selected before \<open>@claude\<close>, two
  toggles of \<open>@gpt\<close> leave \<open>@claude\<close> before \<open>@gpt\<close>.
\<close>

theorem toggleTag_twice_counterexample:
  "selectedTags (apply_updates (toggleTag ''@gpt'') (apply_updates (toggleTag ''@gpt'')
      \<lparr>history = [], content = [], selectedTags = [''@gpt'', ''@claude''],
       isLoading = False, error = None\<rparr>))
     = [''@claude'', ''@gpt'']
   \<and> selectedTags (apply_updates (toggleTag ''@gpt'') (apply_updates (toggleTag ''@gpt'')
      \<lparr>history = [], content = [], selectedTags = [''@gpt'', ''@claude''],
       isLoading = False, error = None\<rparr>))
     \<noteq> [''@gpt'', ''@claude'']"
  by (simp add: toggleTag_def apply_updates_def toggleTag_updater_def)

text \<open>
  C9, amended: toggling appends an absent tag and removes a present one, keeping the
  order of the others. Toggling twice gives the selection back when the tag was absent;
  when it was present, the tag ends up last, behind the others in their order; the set
  of selected tags is the same either way. Toggling two distinct absent tags lists them
  last, in the order of the toggles.
\<close>

theorem toggleTag_spec:
  fixes st :: state
  defines "sel \<equiv> selectedTags st"
  defines "toggled \<equiv> \<lambda>t s. selectedTags (apply_updates (toggleTag t) s)"
  shows
    "(tag \<notin> set sel \<longrightarrow> toggled tag st = sel @ [tag])
   \<and> (tag \<in> set sel \<longrightarrow>
        toggled tag st = filter (\<lambda>t. t \<noteq> tag) sel \<and> tag \<notin> set (toggled tag st))
   \<and> (tag \<notin> set sel \<longrightarrow> toggled tag (apply_updates (toggleTag tag) st) = sel)
   \<and> (tag \<in> set sel \<longrightarrow>
        toggled tag (apply_updates (toggleTag tag) st) = filter (\<lambda>t. t \<noteq> tag) sel @ [tag])
   \<and> set (toggled tag (apply_updates (toggleTag tag) st)) = set sel
   \<and> (a \<noteq> b \<and> a \<notin> set sel \<and> b \<notin> set sel \<longrightarrow>
        toggled b (apply_updates (toggleTag a) st) = sel @ [a, b])"
proof -
  have absent: "tag \<notin> set sel \<longrightarrow> toggled tag st = sel @ [tag]"
    by (simp add: toggled_def sel_def selectedTags_toggleTag toggleTag_updater_absent)
  have present: "tag \<in> set sel \<longrightarrow>
      toggled tag st = filter (\<lambda>t. t \<noteq> tag) sel \<and> tag \<notin> set (toggled tag st)"
    by (simp add: toggled_def sel_def selectedTags_toggleTag toggleTag_updater_present)
  have twice_absent: "tag \<notin> set sel \<longrightarrow> toggled tag (apply_updates (toggleTag tag) st) = sel"
    by (simp add: toggled_def sel_def selectedTags_toggleTag toggleTag_updater_def
        filter_neq_absent)
  have twice_present: "tag \<in> set sel \<longrightarrow>
      toggled tag (apply_updates (toggleTag tag) st) = filter (\<lambda>t. t \<noteq> tag) sel @ [tag]"
    by (simp add: toggled_def sel_def selectedTags_toggleTag toggleTag_updater_def)
  have same_set: "set (toggled tag (apply_updates (toggleTag tag) st)) = set sel"
    by (auto simp: toggled_def sel_def selectedTags_toggleTag toggleTag_updater_def)
  have two: "a \<noteq> b \<and> a \<notin> set sel \<and> b \<notin> set sel \<longrightarrow>
      toggled b (apply_updates (toggleTag a) st) = sel @ [a, b]"
    by (simp add: toggled_def sel_def selectedTags_toggleTag toggleTag_updater_def)
  from absent present twice_absent twice_present same_set two show ?thesis by blast
qed

theorem toggleTag_spec_witness:
  "selectedTags (apply_updates (toggleTag ''@claude'')
      \<lparr>history = [], content = [], selectedTags = [''@gpt''], isLoading = False, error = None\<rparr>)
     = [''@gpt'', ''@claude'']
   \<and> selectedTags (apply_updates (toggleTag ''@gpt'')
      \<lparr>history = [], content = [], selectedTags = [''@gpt'', ''@claude''],
       isLoading = False, error = None\<rparr>)
     = [''@claude'']
   \<and> selectedTags (apply_updates (toggleTag ''@claude'') (apply_updates (toggleTag ''@claude'')
      \<lparr>history = [], content = [], selectedTags = [''@gpt''], isLoading = False, error = None\<rparr>))
     = [''@gpt'']
   \<and> selectedTags (apply_updates (toggleTag ''@claude'') (apply_updates (toggleTag ''@gpt'')
      \<lparr>history = [], content = [], selectedTags = [], isLoading = False, error = None\<rparr>))
     = [''@gpt'', ''@claude'']"
  using
    toggleTag_spec [where tag = "''@claude''" and a = "''@gpt''" and b = "''@claude''" and
      st = "\<lparr>history = [], content = [], selectedTags = [''@gpt''], isLoading = False,
             error = None\<rparr>"]
    toggleTag_spec [where tag = "''@gpt''" and a = "''@gpt''" and b = "''@claude''" and
      st = "\<lparr>history = [], content = [], selectedTags = [''@gpt'', ''@claude''],
             isLoading = False, error = None\<rparr>"]
    toggleTag_spec [where tag = "''@gpt''" and a = "''@gpt''" and b = "''@claude''" and
      st = "\<lparr>history = [], content = [], selectedTags = [], isLoading = False,
             error = None\<rparr>"]
  by simp

end
